theory Spec2Isabelle
  imports Main "HOL-Library.Sublist"
begin

section \<open>The OpenAPI client generator: a shallow embedding of openapigenerator2.ts\<close>

text \<open>
  A JavaScript string is modelled as a \<^typ>\<open>string\<close>, one \<^typ>\<open>char\<close> per code unit, so
  the model covers the strings whose code units are below 256 (Latin-1). The character
  class \<^verbatim>\<open>[a-zA-Z0-9]\<close> has ASCII characters only. \<^verbatim>\<open>toLowerCase\<close> maps this range into
  itself: it lowers the letters A to Z and the Latin-1 capitals 0xC0 to 0xDE, the
  multiplication sign 0xD7 apart. \<^verbatim>\<open>toUpperCase\<close> is only ever applied to the first
  character of a piece cut out by the class (lemma \<open>splitNonAlnum_pieces\<close>), where it
  raises the letters a to z and leaves the rest of the class as it is; this is all the
  model defines of it.
\<close>

subsection \<open>Strings: the built-in operations the generator calls\<close>

text \<open>\<^verbatim>\<open>s.indexOf(p)\<close>: the first position at which \<open>p\<close> occurs in \<open>s\<close>, or \<open>-1\<close>.\<close>

fun indexOf :: "string \<Rightarrow> string \<Rightarrow> int" where
  "indexOf [] p = (if p = [] then 0 else - 1)"
| "indexOf (c # cs) p =
     (if prefix p (c # cs) then 0
      else (let r = indexOf cs p in if r < 0 then - 1 else r + 1))"

text \<open>\<^verbatim>\<open>s.endsWith('/')\<close>.\<close>

definition endsWithSlash :: "string \<Rightarrow> bool" where
  "endsWithSlash s = (if s = [] then False else last s = CHR ''/'')"

text \<open>
  \<^verbatim>\<open>s.replace(pat, rep)\<close> with a string pattern: the first occurrence of \<open>pat\<close> is
  replaced, the rest of \<open>s\<close> is kept. The only call site passes the replacement \<^verbatim>\<open>''\<close>,
  which has no \<^verbatim>\<open>$\<close> pattern.
\<close>

fun str_replace :: "string \<Rightarrow> string \<Rightarrow> string \<Rightarrow> string" where
  "str_replace pat rep [] = (if pat = [] then rep else [])"
| "str_replace pat rep (c # cs) =
     (if prefix pat (c # cs) then rep @ drop (length pat) (c # cs)
      else c # str_replace pat rep cs)"

definition toLowerCase_char :: "char \<Rightarrow> char" where
  "toLowerCase_char c =
     (let n = (of_char c :: int)
      in if 65 \<le> n \<and> n \<le> 90 then char_of (n + 32)
         else if 192 \<le> n \<and> n \<le> 222 then (if n = 215 then c else char_of (n + 32))
         else c)"

definition toUpperCase_char :: "char \<Rightarrow> char" where
  "toUpperCase_char c =
     (let n = (of_char c :: nat) in if 97 \<le> n \<and> n \<le> 122 then char_of (n - 32) else c)"

definition toLowerCase :: "string \<Rightarrow> string" where
  "toLowerCase s = map toLowerCase_char s"

definition toUpperCase :: "string \<Rightarrow> string" where
  "toUpperCase s = map toUpperCase_char s"

text \<open>The character class \<^verbatim>\<open>[a-zA-Z0-9]\<close>.\<close>

definition isAlnum :: "char \<Rightarrow> bool" where
  "isAlnum c =
     (let n = (of_char c :: nat)
      in (if 97 \<le> n \<and> n \<le> 122 then True
          else if 65 \<le> n \<and> n \<le> 90 then True
          else 48 \<le> n \<and> n \<le> 57))"

definition notAlnum :: "char \<Rightarrow> bool" where
  "notAlnum c = (if isAlnum c then False else True)"

definition notClosing :: "char \<Rightarrow> bool" where
  "notClosing c = (if c = CHR ''}'' then False else True)"

text \<open>\<^verbatim>\<open>xs.join(sep)\<close>.\<close>

fun join :: "string \<Rightarrow> string list \<Rightarrow> string" where
  "join sep [] = []"
| "join sep [x] = x"
| "join sep (x # y # ys) = x @ sep @ join sep (y # ys)"

subsection \<open>The common base path\<close>

text \<open>
  The \<^verbatim>\<open>while\<close> loop of \<^verbatim>\<open>findCommonPrefix\<close> for one string \<open>s\<close>: the candidate loses its
  last character until it occurs at position 0 of \<open>s\<close>. \<open>None\<close> is the \<^verbatim>\<open>return ''\<close>
  inside the loop, which leaves the whole function.
\<close>

function (sequential) shrink :: "string \<Rightarrow> string \<Rightarrow> string option" where
  "shrink s pfx =
     (if indexOf s pfx = 0 then Some pfx
      else (let pfx' = butlast pfx in if pfx' = [] then None else shrink s pfx'))"
  by pat_completeness auto
termination
proof (relation "measure (\<lambda>(s, pfx). length pfx)", simp, goal_cases)
  case (1 s pfx pfx')
  then have "pfx \<noteq> []" by auto
  then show ?case using 1 by simp
qed

text \<open>The \<^verbatim>\<open>for\<close> loop over \<^verbatim>\<open>strings[1..]\<close>.\<close>

fun prefixLoop :: "string list \<Rightarrow> string \<Rightarrow> string" where
  "prefixLoop [] pfx = pfx"
| "prefixLoop (s # ss) pfx =
     (case shrink s pfx of None \<Rightarrow> [] | Some pfx' \<Rightarrow> prefixLoop ss pfx')"

definition findCommonPrefix :: "string list \<Rightarrow> string" where
  "findCommonPrefix strings =
     (case strings of [] \<Rightarrow> [] | s0 # rest \<Rightarrow> prefixLoop rest s0)"

definition extractCommonBasePath :: "string list \<Rightarrow> string" where
  "extractCommonBasePath paths =
     (if paths = [] then []
      else (let commonPrefix = findCommonPrefix paths
            in if endsWithSlash commonPrefix then butlast commonPrefix else commonPrefix))"

subsection \<open>The identifier fragment\<close>

text \<open>\<^verbatim>\<open>.replace(/^\//, '')\<close>: one leading slash is removed.\<close>

fun removeLeadingSlash :: "string \<Rightarrow> string" where
  "removeLeadingSlash [] = []"
| "removeLeadingSlash (c # cs) = (if c = CHR ''/'' then cs else c # cs)"

text \<open>
  One match of \<^verbatim>\<open>{([^}]+)}\<close> at the front of a string: an opening brace, the longest
  non-empty run of characters other than the closing brace, and a closing brace. A
  shorter run is followed by a character of the run, never by the closing brace, so
  backtracking finds no other match. The result is group 1 and the text after the match.
\<close>

fun matchParam :: "string \<Rightarrow> (string \<times> string) option" where
  "matchParam [] = None"
| "matchParam (c # cs) =
     (if c = CHR ''{'' then
        (let name = takeWhile notClosing cs; after = dropWhile notClosing cs
         in if name = [] then None
            else (case after of [] \<Rightarrow> None | d # rest \<Rightarrow> Some (name, rest)))
      else None)"

text \<open>\<^verbatim>\<open>.replace(/{([^}]+)}/g, '$1')\<close>: every match, left to right, is replaced by its group 1.\<close>

function removeBraces :: "string \<Rightarrow> string" where
  "removeBraces s =
     (case matchParam s of
        Some (name, rest) \<Rightarrow> name @ removeBraces rest
      | None \<Rightarrow> (case s of [] \<Rightarrow> [] | c # cs \<Rightarrow> c # removeBraces cs))"
  by pat_completeness auto
termination
proof (relation "measure length", simp, goal_cases)
  case (1 s c cs)
  then show ?case by simp
next
  case (2 s m name rest)
  show ?case
  proof (cases s)
    case Nil
    with 2 show ?thesis by simp
  next
    case (Cons c cs)
    have "length (dropWhile notClosing cs) \<le> length cs"
      by (rule length_dropWhile_le)
    with 2 Cons show ?thesis
      by (auto simp: Let_def split: if_splits list.splits)
  qed
qed

text \<open>
  \<^verbatim>\<open>.split(/[^a-zA-Z0-9]+/)\<close>: the pieces between the maximal runs of characters outside
  the class. A run at the start or at the end of the string leaves an empty piece there,
  and the empty string splits into one empty piece.
\<close>

function splitNonAlnum :: "string \<Rightarrow> string list" where
  "splitNonAlnum s =
     (let piece = takeWhile isAlnum s; rest = dropWhile isAlnum s
      in if rest = [] then [piece] else piece # splitNonAlnum (dropWhile notAlnum rest))"
  by pat_completeness auto
termination
proof (relation "measure length", simp, goal_cases)
  case (1 s piece rest)
  then obtain c cs where r: "dropWhile isAlnum s = c # cs"
    by (cases "dropWhile isAlnum s") auto
  then have "\<not> isAlnum c"
    by (metis hd_dropWhile list.distinct(1) list.sel(1))
  then have "dropWhile notAlnum (c # cs) = dropWhile notAlnum cs"
    by (simp add: notAlnum_def)
  moreover have "length (dropWhile notAlnum cs) \<le> length cs"
    by (rule length_dropWhile_le)
  moreover have "length (c # cs) \<le> length s"
    using r length_dropWhile_le [of isAlnum s] by simp
  ultimately show ?case using 1 r by simp
qed

text \<open>\<^verbatim>\<open>part.charAt(0).toUpperCase() + part.slice(1)\<close>.\<close>

definition capitalizePart :: "string \<Rightarrow> string" where
  "capitalizePart part = toUpperCase (take 1 part) @ drop 1 part"

definition capitalizeCamelCase :: "string \<Rightarrow> string" where
  "capitalizeCamelCase str =
     join [] (map capitalizePart (splitNonAlnum (removeBraces (removeLeadingSlash str))))"

subsection \<open>The document\<close>

text \<open>
  The interfaces \<^verbatim>\<open>Parameter\<close>, \<^verbatim>\<open>Operation\<close>, \<^verbatim>\<open>PathMethods\<close> and \<^verbatim>\<open>OpenAPISpec\<close>. An
  object is the list of its properties, keys distinct, in the order in which the document
  declares them; \<open>object_entries\<close> below is the order in which they are enumerated. An
  optional property is an \<^typ>\<open>'a option\<close>. \<^verbatim>\<open>requestBody\<close> has the type
  \<^verbatim>\<open>unknown\<close> and is only read through \<^verbatim>\<open>!!\<close>, so its value is kept up to what \<^verbatim>\<open>!!\<close>
  observes: \<open>Falsy\<close> stands for \<^verbatim>\<open>null\<close>, \<^verbatim>\<open>false\<close>, \<^verbatim>\<open>0\<close> and \<^verbatim>\<open>""\<close>, \<open>Truthy\<close> for every
  other value, among them every object.
\<close>

record Parameter =
  p_in :: string
  p_name :: string

datatype jsvalue = Falsy | Truthy

record Operation =
  parameters :: "Parameter list option"
  requestBody :: "jsvalue option"

type_synonym PathMethods = "(string \<times> Operation) list"

record OpenAPISpec =
  paths :: "(string \<times> PathMethods) list"

text \<open>
  \<^verbatim>\<open>Object.entries(obj)\<close> and \<^verbatim>\<open>Object.keys(obj)\<close> enumerate the own properties of an
  object in the order of the language: first the keys that are array indices, in
  ascending numeric order, then the other keys in the order of their creation. An array
  index is the decimal numeral, without sign and without leading zero, of an integer
  from 0 to 4294967294.
\<close>

definition isDigit :: "char \<Rightarrow> bool" where
  "isDigit c = (let n = (of_char c :: nat) in 48 \<le> n \<and> n \<le> 57)"

fun digitsValue :: "int \<Rightarrow> string \<Rightarrow> int" where
  "digitsValue acc [] = acc"
| "digitsValue acc (c # cs) = digitsValue (10 * acc + (of_char c - 48)) cs"

definition isArrayIndex :: "string \<Rightarrow> bool" where
  "isArrayIndex key =
     (case key of
        [] \<Rightarrow> False
      | c # cs \<Rightarrow>
          if list_all isDigit key
          then (if c = CHR ''0'' then cs = [] else digitsValue 0 key \<le> 4294967294)
          else False)"

definition indexEntry :: "string \<times> 'a \<Rightarrow> bool" where
  "indexEntry e = isArrayIndex (fst e)"

definition otherEntry :: "string \<times> 'a \<Rightarrow> bool" where
  "otherEntry e = (if isArrayIndex (fst e) then False else True)"

definition object_entries :: "(string \<times> 'a) list \<Rightarrow> (string \<times> 'a) list" where
  "object_entries obj =
     sort_key (\<lambda>e. digitsValue 0 (fst e)) (filter indexEntry obj) @ filter otherEntry obj"

definition object_keys :: "(string \<times> 'a) list \<Rightarrow> string list" where
  "object_keys obj = map fst (object_entries obj)"

subsection \<open>The routes file\<close>

text \<open>The local values of the loop body of \<^verbatim>\<open>generateRoutesContent\<close>, one definition each.\<close>

definition relativePathOf :: "string \<Rightarrow> string \<Rightarrow> string" where
  "relativePathOf baseUrl path = str_replace baseUrl [] path"

definition functionNameOf :: "string \<Rightarrow> string \<Rightarrow> string" where
  "functionNameOf method relativePath = toLowerCase method @ capitalizeCamelCase relativePath"

definition isPathParam :: "Parameter \<Rightarrow> bool" where
  "isPathParam p = (p_in p = ''path'')"

definition paramsOf :: "Operation \<Rightarrow> string list" where
  "paramsOf operation =
     (case parameters operation of
        None \<Rightarrow> []
      | Some ps \<Rightarrow> map p_name (filter isPathParam ps))"

definition hasRequestBodyOf :: "Operation \<Rightarrow> bool" where
  "hasRequestBodyOf operation =
     (case requestBody operation of
        None \<Rightarrow> False
      | Some v \<Rightarrow> (case v of Falsy \<Rightarrow> False | Truthy \<Rightarrow> True))"

definition functionDefinitionOf :: "string \<Rightarrow> string list \<Rightarrow> bool \<Rightarrow> string" where
  "functionDefinitionOf functionName params hasRequestBody =
     (let d0 = ''export async function '' @ functionName @ ''('';
          d1 = (if 0 < length params
                then d0 @ join '', '' params @ (if hasRequestBody then '', '' else [])
                else d0);
          d2 = (if hasRequestBody then d1 @ ''requestBody: any'' else d1)
      in d2 @ ''): Promise<any> {'')"

text \<open>\<^verbatim>\<open>relativePath.replace(/{/g, '${')\<close>: every opening brace becomes \<^verbatim>\<open>${\<close>.\<close>

fun replaceOpenBrace :: "string \<Rightarrow> string" where
  "replaceOpenBrace [] = []"
| "replaceOpenBrace (c # cs) =
     (if c = CHR ''{'' then ''${'' @ replaceOpenBrace cs else c # replaceOpenBrace cs)"

definition apiPathOf :: "string \<Rightarrow> string list \<Rightarrow> string" where
  "apiPathOf relativePath params =
     (if 0 < length params
      then [CHR 0x60] @ replaceOpenBrace relativePath @ [CHR 0x60]
      else [CHR 0x27] @ relativePath @ [CHR 0x27])"

definition returnLineOf :: "string \<Rightarrow> string \<Rightarrow> bool \<Rightarrow> string" where
  "returnLineOf method apiPath hasRequestBody =
     (if hasRequestBody
      then ''  return apiClient.'' @ toLowerCase method @ ''('' @ apiPath @ '', requestBody);''
      else ''  return apiClient.'' @ toLowerCase method @ ''('' @ apiPath @ '');'')"

definition closingLine :: string where
  "closingLine = ''}'' @ [CHR 0x0A]"

definition importLine :: string where
  "importLine = ''import { apiClient } from '' @ [CHR 0x27] @ ''./client'' @ [CHR 0x27] @ '';''
     @ [CHR 0x0A]"

text \<open>
  The inner loop, over the entries of one path as enumerated: the array \<^verbatim>\<open>functions\<close> is
  passed through and gets three more lines for every entry.
\<close>

fun methodsLoop :: "string \<Rightarrow> PathMethods \<Rightarrow> string list \<Rightarrow> string list" where
  "methodsLoop relativePath [] functions = functions"
| "methodsLoop relativePath ((method, operation) # rest) functions =
     (let functionName = functionNameOf method relativePath;
          params = paramsOf operation;
          hasRequestBody = hasRequestBodyOf operation;
          functions1 = functions @ [functionDefinitionOf functionName params hasRequestBody];
          apiPath = apiPathOf relativePath params;
          functions2 = functions1 @ [returnLineOf method apiPath hasRequestBody];
          functions3 = functions2 @ [closingLine]
      in methodsLoop relativePath rest functions3)"

text \<open>
  The outer loop, over the entries of \<^verbatim>\<open>spec.paths\<close>; the inner loop runs over
  \<^verbatim>\<open>Object.entries(methods)\<close>.
\<close>

fun pathsLoop :: "string \<Rightarrow> (string \<times> PathMethods) list \<Rightarrow> string list \<Rightarrow> string list" where
  "pathsLoop baseUrl [] functions = functions"
| "pathsLoop baseUrl ((path, methods) # rest) functions =
     (let relativePath = relativePathOf baseUrl path
      in pathsLoop baseUrl rest (methodsLoop relativePath (object_entries methods) functions))"

text \<open>The array \<^verbatim>\<open>functions\<close> when both loops are over, and the text joined from it.\<close>

definition generateRoutesLines :: "OpenAPISpec \<Rightarrow> string \<Rightarrow> string list" where
  "generateRoutesLines spec baseUrl =
     pathsLoop baseUrl (object_entries (paths spec)) [importLine]"

definition generateRoutesContent :: "OpenAPISpec \<Rightarrow> string \<Rightarrow> string" where
  "generateRoutesContent spec baseUrl = join [CHR 0x0A] (generateRoutesLines spec baseUrl)"

text \<open>What \<^verbatim>\<open>main\<close> computes from a parsed document: the base path and the routes file.\<close>

definition main_baseUrl :: "OpenAPISpec \<Rightarrow> string" where
  "main_baseUrl spec = extractCommonBasePath (object_keys (paths spec))"

definition main_routesContent :: "OpenAPISpec \<Rightarrow> string" where
  "main_routesContent spec = generateRoutesContent spec (main_baseUrl spec)"

definition main_routesLines :: "OpenAPISpec \<Rightarrow> string list" where
  "main_routesLines spec = generateRoutesLines spec (main_baseUrl spec)"

subsection \<open>The three lines of one function, and the operations of a document\<close>

text \<open>
  The lines the loop body pushes for one method of one path, and the operations of a
  document in the order of its entries: path after path, and method after method inside
  a path.
\<close>

definition functionBlock :: "string \<Rightarrow> string \<Rightarrow> Operation \<Rightarrow> string list" where
  "functionBlock relativePath method operation =
     [functionDefinitionOf (functionNameOf method relativePath) (paramsOf operation)
        (hasRequestBodyOf operation),
      returnLineOf method (apiPathOf relativePath (paramsOf operation))
        (hasRequestBodyOf operation),
      closingLine]"

fun operationsOfPath :: "string \<Rightarrow> PathMethods \<Rightarrow> (string \<times> string \<times> Operation) list" where
  "operationsOfPath path [] = []"
| "operationsOfPath path ((method, operation) # rest) =
     (path, method, operation) # operationsOfPath path rest"

fun operationsOfPaths ::
  "(string \<times> PathMethods) list \<Rightarrow> (string \<times> string \<times> Operation) list" where
  "operationsOfPaths [] = []"
| "operationsOfPaths ((path, methods) # rest) =
     operationsOfPath path methods @ operationsOfPaths rest"

text \<open>The blocks of a list of operations, \<open>rel\<close> giving the relative path of a path.\<close>

fun blocksOf ::
  "(string \<Rightarrow> string) \<Rightarrow> (string \<times> string \<times> Operation) list \<Rightarrow> string list" where
  "blocksOf rel [] = []"
| "blocksOf rel ((path, method, operation) # rest) =
     functionBlock (rel path) method operation @ blocksOf rel rest"

subsection \<open>The order of a document\<close>

text \<open>
  The entries of a document in the order in which the two loops visit them, and the
  documents in which no path and no method is an array index.
\<close>

definition enumeratedMethods :: "string \<times> PathMethods \<Rightarrow> string \<times> PathMethods" where
  "enumeratedMethods e = (fst e, object_entries (snd e))"

definition enumeratedPaths :: "(string \<times> PathMethods) list \<Rightarrow> (string \<times> PathMethods) list" where
  "enumeratedPaths ps = map enumeratedMethods (object_entries ps)"

definition plainKeys :: "(string \<times> 'a) list \<Rightarrow> bool" where
  "plainKeys obj = list_all otherEntry obj"

definition plainMethods :: "string \<times> PathMethods \<Rightarrow> bool" where
  "plainMethods e = plainKeys (snd e)"

definition plainDocument :: "OpenAPISpec \<Rightarrow> bool" where
  "plainDocument spec =
     (if plainKeys (paths spec) then list_all plainMethods (paths spec) else False)"

subsection \<open>The specification's descriptions, as definitions of their own\<close>










text \<open>
  The formal parameters: the declared names of the parameters located in the path, in
  their order, and one payload parameter at the end. \<open>formalParametersStated\<close> has the
  payload parameter when the operation has a \<^verbatim>\<open>requestBody\<close>, whatever its value;
  \<open>formalParametersTruthy\<close> has it when the \<^verbatim>\<open>requestBody\<close> is there with a value that
  counts as true.
\<close>

fun pathParameterNames :: "Parameter list \<Rightarrow> string list" where
  "pathParameterNames [] = []"
| "pathParameterNames (p # ps) =
     (if p_in p = ''path'' then p_name p # pathParameterNames ps else pathParameterNames ps)"

definition declaredParameters :: "Operation \<Rightarrow> Parameter list" where
  "declaredParameters operation =
     (case parameters operation of None \<Rightarrow> [] | Some ps \<Rightarrow> ps)"

definition formalParametersStated :: "Operation \<Rightarrow> string list" where
  "formalParametersStated operation =
     pathParameterNames (declaredParameters operation)
     @ (case requestBody operation of None \<Rightarrow> [] | Some v \<Rightarrow> [''requestBody: any''])"

definition formalParametersTruthy :: "Operation \<Rightarrow> string list" where
  "formalParametersTruthy operation =
     pathParameterNames (declaredParameters operation)
     @ (case requestBody operation of
          None \<Rightarrow> []
        | Some Falsy \<Rightarrow> []
        | Some Truthy \<Rightarrow> [''requestBody: any''])"

text \<open>
  The call-site path as the specification words it: a plain literal for a relative path
  without placeholder, and otherwise a template in which every placeholder \<^verbatim>\<open>{name}\<close> is
  the interpolation \<^verbatim>\<open>${name}\<close>.
\<close>

fun hasPlaceholder :: "string \<Rightarrow> bool" where
  "hasPlaceholder [] = False"
| "hasPlaceholder (c # cs) =
     (case matchParam (c # cs) of Some m \<Rightarrow> True | None \<Rightarrow> hasPlaceholder cs)"

function interpolatePlaceholders :: "string \<Rightarrow> string" where
  "interpolatePlaceholders s =
     (case matchParam s of
        Some (name, rest) \<Rightarrow> ''${'' @ name @ ''}'' @ interpolatePlaceholders rest
      | None \<Rightarrow> (case s of [] \<Rightarrow> [] | c # cs \<Rightarrow> c # interpolatePlaceholders cs))"
  by pat_completeness auto
termination
proof (relation "measure length", simp, goal_cases)
  case (1 s c cs)
  then show ?case by simp
next
  case (2 s m name rest)
  show ?case
  proof (cases s)
    case Nil
    with 2 show ?thesis by simp
  next
    case (Cons c cs)
    have "length (dropWhile notClosing cs) \<le> length cs"
      by (rule length_dropWhile_le)
    with 2 Cons show ?thesis
      by (auto simp: Let_def split: if_splits list.splits)
  qed
qed

definition apiPathSpec :: "string \<Rightarrow> string" where
  "apiPathSpec relativePath =
     (if hasPlaceholder relativePath
      then [CHR 0x60] @ interpolatePlaceholders relativePath @ [CHR 0x60]
      else [CHR 0x27] @ relativePath @ [CHR 0x27])"




subsection \<open>Documents used as examples\<close>

definition emptyOperation :: Operation where
  "emptyOperation = \<lparr>parameters = None, requestBody = None\<rparr>"

definition idOperation :: Operation where
  "idOperation = \<lparr>parameters = Some [\<lparr>p_in = ''path'', p_name = ''id''\<rparr>], requestBody = None\<rparr>"

text \<open>
  \<^verbatim>\<open>{"parameters": [{"in": "query", "name": "dry"}, {"in": "path", "name": "id"},
    {"in": "path", "name": "rev"}], "requestBody": {}}\<close>
\<close>

definition updateOperation :: Operation where
  "updateOperation =
     \<lparr>parameters = Some [\<lparr>p_in = ''query'', p_name = ''dry''\<rparr>,
                          \<lparr>p_in = ''path'', p_name = ''id''\<rparr>,
                          \<lparr>p_in = ''path'', p_name = ''rev''\<rparr>],
      requestBody = Some Truthy\<rparr>"

text \<open>\<^verbatim>\<open>{"requestBody": {}}\<close> and \<^verbatim>\<open>{"requestBody": null}\<close>.\<close>

definition bodyOperation :: Operation where
  "bodyOperation = \<lparr>parameters = None, requestBody = Some Truthy\<rparr>"

definition nullBodyOperation :: Operation where
  "nullBodyOperation = \<lparr>parameters = None, requestBody = Some Falsy\<rparr>"

text \<open>
  \<^verbatim>\<open>{"/api/users": {"get": {}},
    "/api/users/{id}": {"get": {"parameters": [{"in": "path", "name": "id"}]}}}\<close>
\<close>

definition usersDocument :: OpenAPISpec where
  "usersDocument =
     \<lparr>paths = [(''/api/users'', [(''get'', emptyOperation)]),
               (''/api/users/{id}'', [(''get'', idOperation)])]\<rparr>"

text \<open>
  \<^verbatim>\<open>{"/users": {"get": {}}, "/users/{id}": {"get": {}}}\<close>: the second path has a
  placeholder, and its operation declares no parameter.
\<close>

definition undeclaredDocument :: OpenAPISpec where
  "undeclaredDocument =
     \<lparr>paths = [(''/users'', [(''get'', emptyOperation)]),
               (''/users/{id}'', [(''get'', emptyOperation)])]\<rparr>"

text \<open>
  \<^verbatim>\<open>{"/a": {"post": {}, "0": {}}, "7": {"get": {}}}\<close>: the path \<^verbatim>\<open>7\<close> and the method \<^verbatim>\<open>0\<close>
  are array indices.
\<close>

definition indexDocument :: OpenAPISpec where
  "indexDocument =
     \<lparr>paths = [(''/a'', [(''post'', emptyOperation), (''0'', emptyOperation)]),
               (''7'', [(''get'', emptyOperation)])]\<rparr>"

text \<open>\<^verbatim>\<open>{"/v1/orders": {"post": {}}, "/v1/items": {"get": {}, "put": {}}}\<close>\<close>

definition ordersDocument :: OpenAPISpec where
  "ordersDocument =
     \<lparr>paths = [(''/v1/orders'', [(''post'', emptyOperation)]),
               (''/v1/items'', [(''get'', emptyOperation), (''put'', emptyOperation)])]\<rparr>"

text \<open>\<^verbatim>\<open>{"/api/users": {"GET": {}}, "/api/users/{id}": {"GET": {}}}\<close>\<close>

definition capitalsDocument :: OpenAPISpec where
  "capitalsDocument =
     \<lparr>paths = [(''/api/users'', [(''GET'', emptyOperation)]),
               (''/api/users/{id}'', [(''GET'', emptyOperation)])]\<rparr>"

section \<open>Properties\<close>

subsection \<open>Strings\<close>

declare shrink.simps [simp del]
declare removeBraces.simps [simp del]
declare splitNonAlnum.simps [simp del]
declare interpolatePlaceholders.simps [simp del]

lemma indexOf_zero_iff: "(indexOf s p = 0) = prefix p s"
  by (cases s) (auto simp: Let_def)

lemma str_replace_prefix: "prefix pat s \<Longrightarrow> str_replace pat rep s = rep @ drop (length pat) s"
  by (cases s) auto


lemma join_snoc: "join sep (xs @ [y]) = (if xs = [] then y else join sep xs @ sep @ y)"
proof (induction sep xs rule: join.induct)
  case (1 sep)
  show ?case by simp
next
  case (2 sep x)
  show ?case by simp
next
  case (3 sep x y' ys)
  then show ?case by simp
qed

subsection \<open>The common base path\<close>

lemma shrink_Some: "shrink s pfx = Some q \<Longrightarrow> prefix q pfx \<and> prefix q s"
proof (induction s pfx rule: shrink.induct)
  case (1 s pfx)
  show ?case
  proof (cases "indexOf s pfx = 0")
    case True
    with "1.prems" have "q = pfx"
      by (simp add: shrink.simps [of s pfx])
    with True show ?thesis
      by (simp add: indexOf_zero_iff)
  next
    case False
    with "1.prems" have ne: "butlast pfx \<noteq> []" and rec: "shrink s (butlast pfx) = Some q"
      by (auto simp: shrink.simps [of s pfx] Let_def split: if_splits)
    from "1.IH" [OF False refl ne rec] have "prefix q (butlast pfx)" and "prefix q s"
      by simp_all
    moreover have "prefix (butlast pfx) pfx"
      by (rule prefixeq_butlast)
    ultimately show ?thesis
      by (auto intro: prefix_order.trans)
  qed
qed

lemma prefixLoop_prefix:
  "prefix (prefixLoop ss pfx) pfx \<and> (\<forall>s\<in>set ss. prefix (prefixLoop ss pfx) s)"
proof (induction ss arbitrary: pfx)
  case Nil
  show ?case by simp
next
  case (Cons s ss)
  show ?case
  proof (cases "shrink s pfx")
    case None
    then show ?thesis by simp
  next
    case (Some q)
    from shrink_Some [OF Some] have q: "prefix q pfx" "prefix q s"
      by simp_all
    from Cons.IH [of q] have r: "prefix (prefixLoop ss q) q"
      and rs: "\<forall>t\<in>set ss. prefix (prefixLoop ss q) t"
      by simp_all
    from r q have "prefix (prefixLoop ss q) pfx" "prefix (prefixLoop ss q) s"
      by (auto intro: prefix_order.trans)
    with rs Some show ?thesis by simp
  qed
qed

lemma findCommonPrefix_prefix: "s \<in> set strings \<Longrightarrow> prefix (findCommonPrefix strings) s"
proof (cases strings)
  case Nil
  assume "s \<in> set strings"
  with Nil show ?thesis by simp
next
  case (Cons s0 rest)
  assume "s \<in> set strings"
  with Cons prefixLoop_prefix [of rest s0] show ?thesis
    by (auto simp: findCommonPrefix_def)
qed

lemma basePath_prefix_of_common: "prefix (extractCommonBasePath ps) (findCommonPrefix ps)"
  by (simp add: extractCommonBasePath_def Let_def findCommonPrefix_def prefixeq_butlast)

lemma basePath_prefix: "p \<in> set ps \<Longrightarrow> prefix (extractCommonBasePath ps) p"
  using basePath_prefix_of_common [of ps] findCommonPrefix_prefix [of p ps]
  by (auto intro: prefix_order.trans)

lemma basePath_singleton:
  "extractCommonBasePath [x] = (if endsWithSlash x then butlast x else x)"
  by (simp add: extractCommonBasePath_def findCommonPrefix_def)

text \<open>
  C9. The base path of the empty list is the empty string, the base path of the one
  path \<^verbatim>\<open>/a/b/c\<close> is that path, the base path of \<^verbatim>\<open>/api/users\<close> and \<^verbatim>\<open>/api/orders\<close> is
  \<^verbatim>\<open>/api\<close> (the common prefix \<^verbatim>\<open>/api/\<close> without its last separator), and the base path
  of \<^verbatim>\<open>/a\<close> and \<^verbatim>\<open>/b\<close> is the empty string.
\<close>

theorem extractCommonBasePath_examples:
  "extractCommonBasePath [] = []
   \<and> extractCommonBasePath [''/a/b/c''] = ''/a/b/c''
   \<and> extractCommonBasePath [''/api/users'', ''/api/orders''] = ''/api''
   \<and> extractCommonBasePath [''/a'', ''/b''] = []"
  by code_simp

text \<open>
  C4. The base path computed from a list of paths is a prefix, character by character,
  of every path of the list. (The empty string is a prefix of every string, so the case
  in which the paths agree on nothing is covered.)
\<close>

theorem extractCommonBasePath_is_prefix:
  "\<forall>p\<in>set ps. prefix (extractCommonBasePath ps) p"
proof
  fix p
  assume p: "p \<in> set ps"
  have "prefix (extractCommonBasePath ps) (findCommonPrefix ps)"
    by (rule basePath_prefix_of_common)
  also from p have "prefix (findCommonPrefix ps) p"
    by (rule findCommonPrefix_prefix)
  finally show "prefix (extractCommonBasePath ps) p" .
qed

theorem extractCommonBasePath_is_prefix_witness:
  "''/api/orders'' \<in> set [''/api/users'', ''/api/orders'']
   \<and> prefix (extractCommonBasePath [''/api/users'', ''/api/orders'']) ''/api/orders''"
proof -
  have h: "''/api/orders'' \<in> set [''/api/users'', ''/api/orders'']"
    by simp
  from extractCommonBasePath_is_prefix [of "[''/api/users'', ''/api/orders'']"] h
  have "prefix (extractCommonBasePath [''/api/users'', ''/api/orders'']) ''/api/orders''"
    by (rule bspec)
  with h show ?thesis by (rule conjI)
qed

text \<open>
  C2, as stated: applying the extractor to the one-element list of its own result gives
  that result again. It does not when the common prefix ends in two separators: only one
  of them is stripped each time.
\<close>

theorem extractCommonBasePath_not_idempotent:
  "extractCommonBasePath [extractCommonBasePath [''/api//users'', ''/api//orders'']]
   \<noteq> extractCommonBasePath [''/api//users'', ''/api//orders'']"
  by code_simp

lemma butlast_neq: "x \<noteq> [] \<Longrightarrow> butlast x \<noteq> x"
  by (cases x rule: rev_cases) auto

text \<open>
  C2, amended: for every list of paths, applying the extractor to the one-element list of
  its own result gives that result again exactly when the result does not end in the
  separator.
\<close>

theorem extractCommonBasePath_reapplied:
  "(extractCommonBasePath [extractCommonBasePath ps] = extractCommonBasePath ps)
   = (\<not> endsWithSlash (extractCommonBasePath ps))"
proof (cases "endsWithSlash (extractCommonBasePath ps)")
  case True
  then have "extractCommonBasePath ps \<noteq> []"
    by (auto simp: endsWithSlash_def)
  then have "butlast (extractCommonBasePath ps) \<noteq> extractCommonBasePath ps"
    by (rule butlast_neq)
  with True show ?thesis
    by (simp add: basePath_singleton)
next
  case False
  then show ?thesis
    by (simp add: basePath_singleton)
qed

theorem extractCommonBasePath_reapplied_witness:
  "\<not> endsWithSlash (extractCommonBasePath [''/api/users'', ''/api/orders''])
   \<and> extractCommonBasePath [extractCommonBasePath [''/api/users'', ''/api/orders'']]
       = extractCommonBasePath [''/api/users'', ''/api/orders'']"
proof -
  have h: "\<not> endsWithSlash (extractCommonBasePath [''/api/users'', ''/api/orders''])"
    by code_simp
  from extractCommonBasePath_reapplied [of "[''/api/users'', ''/api/orders'']"] h
  have "extractCommonBasePath [extractCommonBasePath [''/api/users'', ''/api/orders'']]
       = extractCommonBasePath [''/api/users'', ''/api/orders'']"
    by (rule iffD2)
  with h show ?thesis by (rule conjI)
qed

subsection \<open>The identifier fragment\<close>

lemma splitNonAlnum_pieces:
  "piece \<in> set (splitNonAlnum s) \<Longrightarrow> c \<in> set piece \<Longrightarrow> isAlnum c"
proof (induction s arbitrary: piece rule: splitNonAlnum.induct)
  case (1 s)
  show ?case
  proof (cases "dropWhile isAlnum s = []")
    case True
    with "1.prems" have "c \<in> set (takeWhile isAlnum s)"
      by (simp add: splitNonAlnum.simps [of s])
    then show ?thesis
      by (rule set_takeWhileD [THEN conjunct2])
  next
    case False
    then have "splitNonAlnum s
        = takeWhile isAlnum s # splitNonAlnum (dropWhile notAlnum (dropWhile isAlnum s))"
      by (subst splitNonAlnum.simps) (simp only: Let_def if_False)
    with "1.prems"(1) have "piece = takeWhile isAlnum s
        \<or> piece \<in> set (splitNonAlnum (dropWhile notAlnum (dropWhile isAlnum s)))"
      by simp
    then show ?thesis
    proof
      assume "piece = takeWhile isAlnum s"
      with "1.prems"(2) have "c \<in> set (takeWhile isAlnum s)"
        by simp
      then show ?thesis
        by (rule set_takeWhileD [THEN conjunct2])
    next
      assume "piece \<in> set (splitNonAlnum (dropWhile notAlnum (dropWhile isAlnum s)))"
      from "1.IH" [OF refl refl False this "1.prems"(2)] show ?thesis .
    qed
  qed
qed





















subsection \<open>The lines of one function\<close>

lemma pathParameterNames_filter: "pathParameterNames ps = map p_name (filter isPathParam ps)"
  by (induction ps) (simp_all add: isPathParam_def)

lemma paramsOf_names: "paramsOf operation = pathParameterNames (declaredParameters operation)"
  by (simp add: paramsOf_def declaredParameters_def pathParameterNames_filter
      split: option.split)

lemma formalParametersTruthy_params:
  "formalParametersTruthy operation
   = paramsOf operation @ (if hasRequestBodyOf operation then [''requestBody: any''] else [])"
  by (simp add: formalParametersTruthy_def paramsOf_names hasRequestBodyOf_def
      split: option.split jsvalue.split)

lemma functionDefinitionOf_join:
  "functionDefinitionOf functionName params hasRequestBody
   = ''export async function '' @ functionName @ ''(''
     @ join '', '' (params @ (if hasRequestBody then [''requestBody: any''] else []))
     @ ''): Promise<any> {''"
proof (cases "params = []")
  case True
  then show ?thesis
    by (simp add: functionDefinitionOf_def)
next
  case False
  then show ?thesis
    by (simp add: functionDefinitionOf_def join_snoc)
qed

lemma methodsLoop_single:
  "methodsLoop relativePath [(method, operation)] [] = functionBlock relativePath method operation"
  by (simp add: Let_def functionBlock_def)

text \<open>
  C6, as stated: the payload parameter is there if and only if the operation has a
  request body marker. An operation whose \<^verbatim>\<open>requestBody\<close> is \<^verbatim>\<open>null\<close> has the marker, and
  its function has no payload parameter.
\<close>

theorem payload_parameter_null_body:
  "methodsLoop ''/users'' [(''post'', nullBodyOperation)] [] ! 0
     = ''export async function postUsers(): Promise<any> {''
   \<and> formalParametersStated nullBodyOperation = [''requestBody: any'']
   \<and> methodsLoop ''/users'' [(''post'', nullBodyOperation)] [] ! 0
     \<noteq> ''export async function postUsers(''
         @ join '', '' (formalParametersStated nullBodyOperation) @ ''): Promise<any> {''"
  by code_simp

text \<open>
  C6, amended: the parameter list of the generated function, between the parentheses of
  its first line, is the list joined with \<^verbatim>\<open>, \<close> of: the declared names of the parameters
  whose location is \<^verbatim>\<open>path\<close>, in the order of their declaration, the others left out,
  and after them exactly one payload parameter \<^verbatim>\<open>requestBody: any\<close> if and only if the
  operation has a \<^verbatim>\<open>requestBody\<close> whose value counts as true, as every object does; a
  \<^verbatim>\<open>requestBody\<close> of \<^verbatim>\<open>null\<close>, \<^verbatim>\<open>false\<close>, \<^verbatim>\<open>0\<close> or \<^verbatim>\<open>""\<close> is taken as none.
\<close>

theorem formal_parameters_of_function:
  "methodsLoop relativePath [(method, operation)] [] ! 0
   = ''export async function '' @ functionNameOf method relativePath @ ''(''
     @ join '', '' (formalParametersTruthy operation) @ ''): Promise<any> {''"
  by (simp only: methodsLoop_single functionBlock_def nth_Cons_0 functionDefinitionOf_join
      formalParametersTruthy_params)

theorem formal_parameters_of_function_witness:
  "methodsLoop ''/users/{id}/{rev}'' [(''put'', updateOperation)] [] ! 0
     = ''export async function putUsersIdRev(id, rev, requestBody: any): Promise<any> {''
   \<and> methodsLoop ''/users'' [(''post'', bodyOperation)] [] ! 0
     = ''export async function postUsers(requestBody: any): Promise<any> {''
   \<and> methodsLoop ''/users/{id}'' [(''get'', idOperation)] [] ! 0
     = ''export async function getUsersId(id): Promise<any> {''"
proof -
  have "''export async function '' @ functionNameOf ''put'' ''/users/{id}/{rev}'' @ ''(''
     @ join '', '' (formalParametersTruthy updateOperation) @ ''): Promise<any> {''
     = ''export async function putUsersIdRev(id, rev, requestBody: any): Promise<any> {''"
    by code_simp
  with formal_parameters_of_function [of "''/users/{id}/{rev}''" "''put''" updateOperation]
  have a: "methodsLoop ''/users/{id}/{rev}'' [(''put'', updateOperation)] [] ! 0
     = ''export async function putUsersIdRev(id, rev, requestBody: any): Promise<any> {''"
    by (rule trans)
  have "''export async function '' @ functionNameOf ''post'' ''/users'' @ ''(''
     @ join '', '' (formalParametersTruthy bodyOperation) @ ''): Promise<any> {''
     = ''export async function postUsers(requestBody: any): Promise<any> {''"
    by code_simp
  with formal_parameters_of_function [of "''/users''" "''post''" bodyOperation]
  have b: "methodsLoop ''/users'' [(''post'', bodyOperation)] [] ! 0
     = ''export async function postUsers(requestBody: any): Promise<any> {''"
    by (rule trans)
  have "''export async function '' @ functionNameOf ''get'' ''/users/{id}'' @ ''(''
     @ join '', '' (formalParametersTruthy idOperation) @ ''): Promise<any> {''
     = ''export async function getUsersId(id): Promise<any> {''"
    by code_simp
  with formal_parameters_of_function [of "''/users/{id}''" "''get''" idOperation]
  have c: "methodsLoop ''/users/{id}'' [(''get'', idOperation)] [] ! 0
     = ''export async function getUsersId(id): Promise<any> {''"
    by (rule trans)
  from a b c show ?thesis
    by (intro conjI)
qed

subsection \<open>The two loops\<close>

lemma blocksOf_append: "blocksOf rel (xs @ ys) = blocksOf rel xs @ blocksOf rel ys"
  by (induction xs) auto

lemma methodsLoop_blocks:
  "methodsLoop (rel path) ms fs = fs @ blocksOf rel (operationsOfPath path ms)"
  by (induction ms arbitrary: fs) (auto simp: Let_def functionBlock_def)

lemma pathsLoop_blocks:
  "pathsLoop baseUrl ps fs
   = fs @ blocksOf (relativePathOf baseUrl) (operationsOfPaths (map enumeratedMethods ps))"
proof (induction ps arbitrary: fs)
  case Nil
  show ?case by simp
next
  case (Cons e ps)
  obtain path ms where e: "e = (path, ms)"
    by (cases e)
  have "methodsLoop (relativePathOf baseUrl path) (object_entries ms) fs
        = fs @ blocksOf (relativePathOf baseUrl) (operationsOfPath path (object_entries ms))"
    by (rule methodsLoop_blocks)
  with Cons.IH e show ?case
    by (simp add: blocksOf_append enumeratedMethods_def)
qed

lemma routesLines_blocks:
  "generateRoutesLines spec baseUrl
   = importLine
     # blocksOf (relativePathOf baseUrl) (operationsOfPaths (enumeratedPaths (paths spec)))"
  by (simp add: generateRoutesLines_def pathsLoop_blocks enumeratedPaths_def)

lemma object_entries_plain: "plainKeys obj \<Longrightarrow> object_entries obj = obj"
proof -
  assume "plainKeys obj"
  then have all: "\<forall>e\<in>set obj. otherEntry e"
    by (simp add: plainKeys_def list_all_iff)
  then have "filter otherEntry obj = obj"
    by simp
  moreover from all have "filter indexEntry obj = []"
    by (auto simp: filter_empty_conv indexEntry_def otherEntry_def split: if_splits)
  ultimately show ?thesis
    by (simp add: object_entries_def)
qed

lemma enumeratedPaths_plain: "plainDocument spec \<Longrightarrow> enumeratedPaths (paths spec) = paths spec"
proof -
  assume "plainDocument spec"
  then have keys: "plainKeys (paths spec)" and methods: "list_all plainMethods (paths spec)"
    by (simp_all add: plainDocument_def split: if_splits)
  from methods have "\<forall>e\<in>set (paths spec). enumeratedMethods e = e"
    by (auto simp: list_all_iff plainMethods_def enumeratedMethods_def object_entries_plain)
  then have "map enumeratedMethods (paths spec) = paths spec"
    by (simp add: map_idI)
  with keys show ?thesis
    by (simp add: enumeratedPaths_def object_entries_plain)
qed

lemma blocksOf_cong:
  "\<forall>x\<in>set ops. f (fst x) = g (fst x) \<Longrightarrow> blocksOf f ops = blocksOf g ops"
  by (induction ops) auto

lemma operationsOfPath_path:
  "(path, method, operation) \<in> set (operationsOfPath p ms) \<Longrightarrow> path = p"
  by (induction ms) auto

lemma operationsOfPaths_fst:
  "(path, method, operation) \<in> set (operationsOfPaths ps) \<Longrightarrow> path \<in> fst ` set ps"
  by (induction ps) (auto dest: operationsOfPath_path)

lemma operationsOfPaths_keys:
  "(path, method, operation) \<in> set (operationsOfPaths (enumeratedPaths ps))
   \<Longrightarrow> path \<in> set (object_keys ps)"
proof -
  assume "(path, method, operation) \<in> set (operationsOfPaths (enumeratedPaths ps))"
  then have "path \<in> fst ` set (enumeratedPaths ps)"
    by (rule operationsOfPaths_fst)
  then show ?thesis
    by (force simp: enumeratedPaths_def enumeratedMethods_def object_keys_def)
qed

text \<open>
  C7, as stated: for every document the functions come in the order in which the document
  declares its paths and, inside a path, its methods. In the document that declares the
  path \<^verbatim>\<open>/a\<close> with the methods \<^verbatim>\<open>post\<close> and \<^verbatim>\<open>0\<close>, and after it the path \<^verbatim>\<open>7\<close> with the
  method \<^verbatim>\<open>get\<close>, the function of \<^verbatim>\<open>7\<close> comes first and that of \<^verbatim>\<open>0\<close> before that of
  \<^verbatim>\<open>post\<close>: the keys that are array indices are enumerated before the others.
\<close>

theorem indexDocument_order:
  "main_routesLines indexDocument
     = [importLine,
        ''export async function get7(): Promise<any> {'',
        ''  return apiClient.get('' @ [CHR 0x27] @ ''7'' @ [CHR 0x27] @ '');'',
        closingLine,
        ''export async function 0A(): Promise<any> {'',
        ''  return apiClient.0('' @ [CHR 0x27] @ ''/a'' @ [CHR 0x27] @ '');'',
        closingLine,
        ''export async function postA(): Promise<any> {'',
        ''  return apiClient.post('' @ [CHR 0x27] @ ''/a'' @ [CHR 0x27] @ '');'',
        closingLine]
   \<and> main_routesLines indexDocument
     \<noteq> importLine # blocksOf (relativePathOf (main_baseUrl indexDocument))
         (operationsOfPaths (paths indexDocument))"
  by code_simp

text \<open>
  C7, amended: the lines of the routes file are the import line and then the three lines
  of every operation in the order in which the entries are enumerated: the keys that are
  array indices first, in ascending order, then the other keys as declared. For every
  document in which no path and no method is an array index (as when every path starts
  with a slash and every method is a name), this is exactly the order in which the
  document declares them, path after path and inside a path method after method; for
  such a document of the paths \<open>p2\<close> and \<open>p1\<close>, declared in this order with one method
  each, the function of \<open>p2\<close> comes before the function of \<open>p1\<close> in the text.
\<close>

theorem generated_order_of_plain_document:
  "generateRoutesLines spec baseUrl
     = importLine
       # blocksOf (relativePathOf baseUrl) (operationsOfPaths (enumeratedPaths (paths spec)))
   \<and> (plainDocument spec \<longrightarrow>
        generateRoutesLines spec baseUrl
        = importLine # blocksOf (relativePathOf baseUrl) (operationsOfPaths (paths spec)))
   \<and> (plainDocument spec \<longrightarrow> paths spec = [(p2, [(m2, o2)]), (p1, [(m1, o1)])] \<longrightarrow>
        generateRoutesContent spec baseUrl
        = importLine @ [CHR 0x0A]
          @ join [CHR 0x0A] (functionBlock (relativePathOf baseUrl p2) m2 o2) @ [CHR 0x0A]
          @ join [CHR 0x0A] (functionBlock (relativePathOf baseUrl p1) m1 o1))"
proof -
  have declared: "generateRoutesLines spec baseUrl
        = importLine # blocksOf (relativePathOf baseUrl) (operationsOfPaths (paths spec))"
    if "plainDocument spec"
    using that by (simp add: routesLines_blocks enumeratedPaths_plain)
  have "generateRoutesContent spec baseUrl
        = importLine @ [CHR 0x0A]
          @ join [CHR 0x0A] (functionBlock (relativePathOf baseUrl p2) m2 o2) @ [CHR 0x0A]
          @ join [CHR 0x0A] (functionBlock (relativePathOf baseUrl p1) m1 o1)"
    if "plainDocument spec" and "paths spec = [(p2, [(m2, o2)]), (p1, [(m1, o1)])]"
    using that by (simp add: generateRoutesContent_def declared functionBlock_def)
  with declared show ?thesis
    by (simp add: routesLines_blocks)
qed

theorem generated_order_of_plain_document_witness:
  "plainDocument ordersDocument
   \<and> main_routesLines ordersDocument
     = importLine # blocksOf (relativePathOf (main_baseUrl ordersDocument))
         (operationsOfPaths (paths ordersDocument))
   \<and> main_routesLines ordersDocument
     = [importLine,
        ''export async function postOrders(): Promise<any> {'',
        ''  return apiClient.post('' @ [CHR 0x27] @ ''/orders'' @ [CHR 0x27] @ '');'',
        closingLine,
        ''export async function getItems(): Promise<any> {'',
        ''  return apiClient.get('' @ [CHR 0x27] @ ''/items'' @ [CHR 0x27] @ '');'',
        closingLine,
        ''export async function putItems(): Promise<any> {'',
        ''  return apiClient.put('' @ [CHR 0x27] @ ''/items'' @ [CHR 0x27] @ '');'',
        closingLine]
   \<and> plainDocument usersDocument
   \<and> paths usersDocument
     = [(''/api/users'', [(''get'', emptyOperation)]), (''/api/users/{id}'', [(''get'', idOperation)])]
   \<and> generateRoutesContent usersDocument ''/api''
     = importLine @ [CHR 0x0A]
       @ join [CHR 0x0A] (functionBlock (relativePathOf ''/api'' ''/api/users'') ''get''
           emptyOperation) @ [CHR 0x0A]
       @ join [CHR 0x0A] (functionBlock (relativePathOf ''/api'' ''/api/users/{id}'') ''get''
           idOperation)"
proof -
  have h1: "plainDocument ordersDocument"
    by code_simp
  note t1 = generated_order_of_plain_document [of ordersDocument "main_baseUrl ordersDocument"]
  from t1 have "plainDocument ordersDocument \<longrightarrow>
        generateRoutesLines ordersDocument (main_baseUrl ordersDocument)
        = importLine # blocksOf (relativePathOf (main_baseUrl ordersDocument))
            (operationsOfPaths (paths ordersDocument))"
    by blast
  from this h1 have "generateRoutesLines ordersDocument (main_baseUrl ordersDocument)
        = importLine # blocksOf (relativePathOf (main_baseUrl ordersDocument))
            (operationsOfPaths (paths ordersDocument))"
    by (rule mp)
  then have a: "main_routesLines ordersDocument
     = importLine # blocksOf (relativePathOf (main_baseUrl ordersDocument))
         (operationsOfPaths (paths ordersDocument))"
    by (simp only: main_routesLines_def)
  have b: "main_routesLines ordersDocument
     = [importLine,
        ''export async function postOrders(): Promise<any> {'',
        ''  return apiClient.post('' @ [CHR 0x27] @ ''/orders'' @ [CHR 0x27] @ '');'',
        closingLine,
        ''export async function getItems(): Promise<any> {'',
        ''  return apiClient.get('' @ [CHR 0x27] @ ''/items'' @ [CHR 0x27] @ '');'',
        closingLine,
        ''export async function putItems(): Promise<any> {'',
        ''  return apiClient.put('' @ [CHR 0x27] @ ''/items'' @ [CHR 0x27] @ '');'',
        closingLine]"
    by code_simp
  have h2: "plainDocument usersDocument"
    by code_simp
  have h3: "paths usersDocument
     = [(''/api/users'', [(''get'', emptyOperation)]), (''/api/users/{id}'', [(''get'', idOperation)])]"
    by (simp add: usersDocument_def)
  note t2 = generated_order_of_plain_document
    [of usersDocument "''/api''" "''/api/users''" "''get''" emptyOperation
      "''/api/users/{id}''" "''get''" idOperation]
  from t2 h2 h3 have c: "generateRoutesContent usersDocument ''/api''
     = importLine @ [CHR 0x0A]
       @ join [CHR 0x0A] (functionBlock (relativePathOf ''/api'' ''/api/users'') ''get''
           emptyOperation) @ [CHR 0x0A]
       @ join [CHR 0x0A] (functionBlock (relativePathOf ''/api'' ''/api/users/{id}'') ''get''
           idOperation)"
    by blast
  from h1 a b h2 h3 c show ?thesis
    by (intro conjI)
qed

text \<open>
  C5. For every path of a document, the base path computed from the document followed by
  the relative path gives the path back, the relative path is the path without its first
  characters, as many as the base path has, and the functions of the routes file are
  generated from these relative paths, for the entries of the document as the loops
  enumerate them.
\<close>

theorem relativePath_is_path_without_prefix:
  "(\<forall>path\<in>set (object_keys (paths spec)).
      main_baseUrl spec @ relativePathOf (main_baseUrl spec) path = path
      \<and> relativePathOf (main_baseUrl spec) path = drop (length (main_baseUrl spec)) path)
   \<and> main_routesLines spec
       = importLine
         # blocksOf (drop (length (main_baseUrl spec)))
             (operationsOfPaths (enumeratedPaths (paths spec)))"
proof -
  have rel: "relativePathOf (main_baseUrl spec) path = drop (length (main_baseUrl spec)) path"
    and again: "main_baseUrl spec @ relativePathOf (main_baseUrl spec) path = path"
    if "path \<in> set (object_keys (paths spec))" for path
  proof -
    from that have pre: "prefix (main_baseUrl spec) path"
      by (simp add: main_baseUrl_def basePath_prefix)
    then show "relativePathOf (main_baseUrl spec) path = drop (length (main_baseUrl spec)) path"
      by (simp add: relativePathOf_def str_replace_prefix)
    with pre show "main_baseUrl spec @ relativePathOf (main_baseUrl spec) path = path"
      by (auto simp: prefix_def)
  qed
  have "blocksOf (relativePathOf (main_baseUrl spec))
          (operationsOfPaths (enumeratedPaths (paths spec)))
        = blocksOf (drop (length (main_baseUrl spec)))
          (operationsOfPaths (enumeratedPaths (paths spec)))"
  proof (rule blocksOf_cong, rule ballI)
    fix x
    assume x: "x \<in> set (operationsOfPaths (enumeratedPaths (paths spec)))"
    obtain p m op where "x = (p, m, op)"
      by (cases x)
    with x have "fst x \<in> set (object_keys (paths spec))"
      by (auto dest: operationsOfPaths_keys)
    then show "relativePathOf (main_baseUrl spec) (fst x) = drop (length (main_baseUrl spec)) (fst x)"
      by (rule rel)
  qed
  then have "main_routesLines spec
       = importLine
         # blocksOf (drop (length (main_baseUrl spec)))
             (operationsOfPaths (enumeratedPaths (paths spec)))"
    by (simp add: main_routesLines_def routesLines_blocks)
  with rel again show ?thesis
    by blast
qed

theorem relativePath_is_path_without_prefix_witness:
  "''/api/users/{id}'' \<in> set (object_keys (paths usersDocument))
   \<and> main_baseUrl usersDocument @ relativePathOf (main_baseUrl usersDocument) ''/api/users/{id}''
       = ''/api/users/{id}''
   \<and> relativePathOf (main_baseUrl usersDocument) ''/api/users/{id}''
       = drop (length (main_baseUrl usersDocument)) ''/api/users/{id}''"
proof -
  have h: "''/api/users/{id}'' \<in> set (object_keys (paths usersDocument))"
    by code_simp
  from relativePath_is_path_without_prefix [of usersDocument]
  have "\<forall>path\<in>set (object_keys (paths usersDocument)).
      main_baseUrl usersDocument @ relativePathOf (main_baseUrl usersDocument) path = path
      \<and> relativePathOf (main_baseUrl usersDocument) path
          = drop (length (main_baseUrl usersDocument)) path"
    by (rule conjunct1)
  from this h
  have "main_baseUrl usersDocument @ relativePathOf (main_baseUrl usersDocument) ''/api/users/{id}''
       = ''/api/users/{id}''
   \<and> relativePathOf (main_baseUrl usersDocument) ''/api/users/{id}''
       = drop (length (main_baseUrl usersDocument)) ''/api/users/{id}''"
    by (rule bspec)
  with h show ?thesis by (rule conjI)
qed

subsection \<open>The call-site path\<close>

lemma replaceOpenBrace_append:
  "replaceOpenBrace (a @ b) = replaceOpenBrace a @ replaceOpenBrace b"
  by (induction a) auto

lemma replaceOpenBrace_id: "CHR ''{'' \<notin> set name \<Longrightarrow> replaceOpenBrace name = name"
  by (induction name) auto

text \<open>
  C3, as stated: a relative path with a placeholder is emitted as a template with the
  placeholder rewritten to an interpolation. In the document of the paths \<^verbatim>\<open>/users\<close> and
  \<^verbatim>\<open>/users/{id}\<close>, whose operations declare no parameter, the relative path \<^verbatim>\<open>/{id}\<close> is
  emitted as the plain literal \<^verbatim>\<open>'/{id}'\<close>, where the statement asks for the template
  with \<^verbatim>\<open>/${id}\<close>.
\<close>

theorem apiPath_undeclared_placeholder:
  "relativePathOf (main_baseUrl undeclaredDocument) ''/users/{id}'' = ''/{id}''
   \<and> apiPathOf ''/{id}'' (paramsOf emptyOperation) = [CHR 0x27] @ ''/{id}'' @ [CHR 0x27]
   \<and> apiPathSpec ''/{id}'' = [CHR 0x60] @ ''/${id}'' @ [CHR 0x60]
   \<and> apiPathOf ''/{id}'' (paramsOf emptyOperation) \<noteq> apiPathSpec ''/{id}''
   \<and> main_routesLines undeclaredDocument
       = [importLine,
          ''export async function get(): Promise<any> {'',
          ''  return apiClient.get('' @ [CHR 0x27, CHR 0x27] @ '');'',
          closingLine,
          ''export async function getId(): Promise<any> {'',
          ''  return apiClient.get('' @ [CHR 0x27] @ ''/{id}'' @ [CHR 0x27] @ '');'',
          closingLine]"
  by code_simp

text \<open>
  C3, amended: the call-site path is decided by the path parameters the operation
  declares, not by the placeholders of the path. With no declared path parameter it is
  the relative path as a plain literal between single quotes, placeholders included as
  they are. With at least one it is a template between backticks in which every opening
  brace of the relative path has become \<^verbatim>\<open>${\<close>, so that a placeholder \<^verbatim>\<open>{name}\<close> whose name
  has no opening brace has become the interpolation \<^verbatim>\<open>${name}\<close>.
\<close>

theorem apiPath_by_declared_parameters:
  "apiPathOf relativePath (paramsOf operation)
     = (if paramsOf operation = [] then [CHR 0x27] @ relativePath @ [CHR 0x27]
        else [CHR 0x60] @ replaceOpenBrace relativePath @ [CHR 0x60])
   \<and> functionBlock relativePath method operation ! 1
     = returnLineOf method (apiPathOf relativePath (paramsOf operation))
         (hasRequestBodyOf operation)
   \<and> (CHR ''{'' \<notin> set name \<longrightarrow>
        replaceOpenBrace (a @ ''{'' @ name @ ''}'' @ b)
        = replaceOpenBrace a @ ''${'' @ name @ ''}'' @ replaceOpenBrace b)"
proof -
  have "replaceOpenBrace (a @ ''{'' @ name @ ''}'' @ b)
        = replaceOpenBrace a @ ''${'' @ name @ ''}'' @ replaceOpenBrace b"
    if "CHR ''{'' \<notin> set name"
    using that by (simp add: replaceOpenBrace_append replaceOpenBrace_id)
  then show ?thesis
    by (simp add: apiPathOf_def functionBlock_def)
qed

theorem apiPath_by_declared_parameters_witness:
  "CHR ''{'' \<notin> set ''id''
   \<and> replaceOpenBrace (''/users/'' @ ''{'' @ ''id'' @ ''}'' @ ''/posts'')
       = replaceOpenBrace ''/users/'' @ ''${'' @ ''id'' @ ''}'' @ replaceOpenBrace ''/posts''
   \<and> apiPathOf ''/users/{id}/posts'' (paramsOf idOperation)
       = [CHR 0x60] @ ''/users/${id}/posts'' @ [CHR 0x60]"
proof -
  have h: "CHR ''{'' \<notin> set ''id''"
    by simp
  have ne: "paramsOf idOperation \<noteq> []"
    by (simp add: paramsOf_def idOperation_def isPathParam_def)
  note t = apiPath_by_declared_parameters
    [of "''/users/{id}/posts''" idOperation "''get''" "''id''" "''/users/''" "''/posts''"]
  from t have "CHR ''{'' \<notin> set ''id'' \<longrightarrow>
        replaceOpenBrace (''/users/'' @ ''{'' @ ''id'' @ ''}'' @ ''/posts'')
        = replaceOpenBrace ''/users/'' @ ''${'' @ ''id'' @ ''}'' @ replaceOpenBrace ''/posts''"
    by (elim conjE)
  from this h
  have r: "replaceOpenBrace (''/users/'' @ ''{'' @ ''id'' @ ''}'' @ ''/posts'')
        = replaceOpenBrace ''/users/'' @ ''${'' @ ''id'' @ ''}'' @ replaceOpenBrace ''/posts''"
    by (rule mp)
  from t have "apiPathOf ''/users/{id}/posts'' (paramsOf idOperation)
     = (if paramsOf idOperation = [] then [CHR 0x27] @ ''/users/{id}/posts'' @ [CHR 0x27]
        else [CHR 0x60] @ replaceOpenBrace ''/users/{id}/posts'' @ [CHR 0x60])"
    by (elim conjE)
  with ne have "apiPathOf ''/users/{id}/posts'' (paramsOf idOperation)
       = [CHR 0x60] @ ''/users/${id}/posts'' @ [CHR 0x60]"
    by simp
  with h r show ?thesis
    by (intro conjI)
qed

subsection \<open>An endpoint at the base path\<close>







text \<open>
  The routes file of the document whose methods are written \<^verbatim>\<open>GET\<close>: the names and the
  accessors are in lower case.
\<close>

lemma capitalsDocument_lines:
  "main_routesLines capitalsDocument
   = [importLine,
      ''export async function get(): Promise<any> {'',
      ''  return apiClient.get('' @ [CHR 0x27, CHR 0x27] @ '');'',
      closingLine,
      ''export async function getId(): Promise<any> {'',
      ''  return apiClient.get('' @ [CHR 0x27] @ ''/{id}'' @ [CHR 0x27] @ '');'',
      closingLine]"
  by code_simp

subsection \<open>The document of the two users endpoints\<close>

text \<open>
  C1, as stated: for the document of the paths \<^verbatim>\<open>/api/users\<close> and \<^verbatim>\<open>/api/users/{id}\<close> the
  base path is \<^verbatim>\<open>/api\<close> and the functions are \<^verbatim>\<open>getUsers\<close>, calling \<^verbatim>\<open>'/users'\<close>, and
  \<^verbatim>\<open>getUsersId\<close>, calling the template with \<^verbatim>\<open>/users/${id}\<close>. The first path is a prefix of
  the second, so the base path is the first path itself, and the lines are others.
\<close>

theorem usersDocument_not_as_stated:
  "main_baseUrl usersDocument \<noteq> ''/api''
   \<and> main_routesLines usersDocument
       \<noteq> [importLine,
          ''export async function getUsers(): Promise<any> {'',
          ''  return apiClient.get('' @ [CHR 0x27] @ ''/users'' @ [CHR 0x27] @ '');'',
          closingLine,
          ''export async function getUsersId(id): Promise<any> {'',
          ''  return apiClient.get('' @ [CHR 0x60] @ ''/users/${id}'' @ [CHR 0x60] @ '');'',
          closingLine]"
  by code_simp

text \<open>
  C1, amended: for that document the base path is \<^verbatim>\<open>/api/users\<close>, and exactly two
  functions are generated: \<^verbatim>\<open>get\<close>, without parameter, which calls the \<^verbatim>\<open>get\<close> accessor
  with the plain literal \<^verbatim>\<open>''\<close>, and \<^verbatim>\<open>getId\<close>, with the one parameter \<^verbatim>\<open>id\<close>, which calls
  the \<^verbatim>\<open>get\<close> accessor with the template of \<^verbatim>\<open>/${id}\<close>.
\<close>

theorem usersDocument_pipeline:
  "main_baseUrl usersDocument = ''/api/users''
   \<and> main_routesLines usersDocument
       = [importLine,
          ''export async function get(): Promise<any> {'',
          ''  return apiClient.get('' @ [CHR 0x27, CHR 0x27] @ '');'',
          closingLine,
          ''export async function getId(id): Promise<any> {'',
          ''  return apiClient.get('' @ [CHR 0x60] @ ''/${id}'' @ [CHR 0x60] @ '');'',
          closingLine]"
  by code_simp

text \<open>
  The functions of the statement are those the generator gives when the base path
  \<^verbatim>\<open>/api\<close> is handed to it.
\<close>

lemma usersDocument_with_api_base:
  "generateRoutesLines usersDocument ''/api''
   = [importLine,
      ''export async function getUsers(): Promise<any> {'',
      ''  return apiClient.get('' @ [CHR 0x27] @ ''/users'' @ [CHR 0x27] @ '');'',
      closingLine,
      ''export async function getUsersId(id): Promise<any> {'',
      ''  return apiClient.get('' @ [CHR 0x60] @ ''/users/${id}'' @ [CHR 0x60] @ '');'',
      closingLine]"
  by code_simp


end
